theory Spec2Isabelle
  imports Complex_Main "HOL-Library.Log_Nat" "HOL-Library.Multiset"
begin

section \<open>The TripAdvisor search scraper (tripadvisor-scraper/main.py)\<close>

text \<open>
  A shallow embedding of \<^verbatim>\<open>parse_search_page\<close>, \<^verbatim>\<open>scrape_restaurant_details\<close> and
  \<^verbatim>\<open>scrape_search\<close>. What the source takes from outside is a parameter of the model:
  \<^item> the HTTP client (\<^verbatim>\<open>client.get\<close>, imported from another module) is a function from
    the requested URL to a response, or to \<open>None\<close> when the request raises a transport
    error instead of returning;
  \<^item> a response carries its status code, its URL and the answers of the CSS queries the
    source runs on its body (the queries themselves are parsel's);
  \<^item> \<^verbatim>\<open>urllib.parse.urljoin\<close> is a function on two strings;
  \<^item> the order in which \<^verbatim>\<open>asyncio.as_completed\<close> hands back the concurrent page
    requests is given by a completion time for every URL.
  Python exceptions are values of the type \<open>error\<close>; a function that can raise returns
  \<open>error + 'a\<close>. A \<open>char\<close> is a code point below 256: among these the decimal
  digits are \<^verbatim>\<open>0\<close> to \<^verbatim>\<open>9\<close> and the white space of \<^verbatim>\<open>split\<close>, \<^verbatim>\<open>strip\<close> and \<^verbatim>\<open>int\<close> is the
  set \<open>is_space\<close> below. The digits and the white space that Unicode has beyond code
  point 255 are outside the model.
\<close>

subsection \<open>Exceptions and data\<close>

datatype error =
    AssertionError string
  | ValueError
  | IndexError
  | ZeroDivisionError
  | OverflowError
  | TransportError

text \<open>
  \<^verbatim>\<open>class Preview(TypedDict)\<close>. The field \<open>rating\<close> is declared \<^verbatim>\<open>str\<close>, but line 58
  stores the result of \<^verbatim>\<open>re_first\<close>, which is \<^verbatim>\<open>None\<close> when nothing matches: the field
  is a \<open>string option\<close>, with \<open>None\<close> for Python's \<^verbatim>\<open>None\<close>.
\<close>

record Preview =
  url :: string
  name :: string
  numberOfReviews :: string
  rating :: "string option"
  address :: string

text \<open>One \<^verbatim>\<open>div.listing\<close> box: what \<^verbatim>\<open>a.property_title::text\<close> and
  \<^verbatim>\<open>a.property_title::attr(href)\<close> find in it (\<open>None\<close>: no such node).\<close>

record listing =
  title_text :: "string option"
  title_href :: "string option"

record response =
  status_code :: int
  response_url :: string
  listing_boxes :: "listing list"
  results_count_text :: "string option"
  next_page_href :: "string option"
  address_text :: "string option"
  review_count_text :: "string option"
  bubble_rating_classes :: "string list"

type_synonym client = "string \<Rightarrow> response option"

text \<open>The requests a call issues: listing pages (the first page and the planned ones) and
  restaurant detail pages.\<close>

datatype request = ListingPage string | DetailPage string

text \<open>The URLs of the listing pages among the requests of a call.\<close>

fun listing_urls :: "request list \<Rightarrow> string list" where
  "listing_urls [] = []"
| "listing_urls (ListingPage u # rs) = u # listing_urls rs"
| "listing_urls (DetailPage u # rs) = listing_urls rs"

subsection \<open>Python string operations\<close>

text \<open>\<^verbatim>\<open>str.isspace\<close> on one character: the ASCII white space, the separators
  \<^verbatim>\<open>\x1c\<close> to \<^verbatim>\<open>\x1f\<close>, the next-line character \<^verbatim>\<open>\x85\<close> and the no-break space
  \<^verbatim>\<open>\xa0\<close>.\<close>

definition is_space :: "char \<Rightarrow> bool" where
  "is_space c \<longleftrightarrow> c \<in> set [CHR '' '', CHR 0x09, CHR 0x0A, CHR 0x0B, CHR 0x0C, CHR 0x0D,
                           CHR 0x1C, CHR 0x1D, CHR 0x1E, CHR 0x1F, CHR 0x85, CHR 0xA0]"

definition is_digit :: "char \<Rightarrow> bool" where
  "is_digit c \<longleftrightarrow> c \<in> set ''0123456789''"

definition digit_val :: "char \<Rightarrow> nat" where
  "digit_val c = of_char c - 48"

text \<open>\<^verbatim>\<open>str.strip()\<close>\<close>

definition strip :: "string \<Rightarrow> string" where
  "strip s = rev (dropWhile is_space (rev (dropWhile is_space s)))"

text \<open>\<^verbatim>\<open>str.split()\<close> without arguments: the maximal runs of non-space characters.\<close>

fun split_ws :: "string \<Rightarrow> string \<Rightarrow> string list" where
  "split_ws w [] = (if w = [] then [] else [rev w])"
| "split_ws w (c # cs) =
     (if is_space c then (if w = [] then split_ws [] cs else rev w # split_ws [] cs)
      else split_ws (c # w) cs)"

definition split :: "string \<Rightarrow> string list" where
  "split s = split_ws [] s"

definition startswith :: "string \<Rightarrow> string \<Rightarrow> bool" where
  "startswith s p \<longleftrightarrow> take (length p) s = p"

text \<open>\<^verbatim>\<open>str.replace(old, new)\<close>: every occurrence of \<open>old\<close>, found from the left and not
  overlapping; an empty \<open>old\<close> matches before every character and at the end. In
  \<open>replace_from k\<close> the next \<open>k\<close> characters belong to the occurrence just replaced
  and are dropped.\<close>

fun replace_from :: "nat \<Rightarrow> string \<Rightarrow> string \<Rightarrow> string \<Rightarrow> string" where
  "replace_from k old new [] = []"
| "replace_from k old new (c # cs) =
     (if 0 < k then replace_from (k - 1) old new cs
      else if startswith (c # cs) old then new @ replace_from (length old - 1) old new cs
      else c # replace_from 0 old new cs)"

fun intersperse_new :: "string \<Rightarrow> string \<Rightarrow> string" where
  "intersperse_new new [] = new"
| "intersperse_new new (c # cs) = new @ c # intersperse_new new cs"

definition replace :: "string \<Rightarrow> string \<Rightarrow> string \<Rightarrow> string" where
  "replace s old new = (if old = [] then intersperse_new new s else replace_from 0 old new s)"

text \<open>\<^verbatim>\<open>str(n)\<close> for a non-negative integer, as the f-strings of line 91 print it.\<close>

fun str_nat :: "nat \<Rightarrow> string" where
  "str_nat n = (if n < 10 then [''0123456789'' ! n]
                else str_nat (n div 10) @ [''0123456789'' ! (n mod 10)])"

declare str_nat.simps [simp del]

text \<open>\<^verbatim>\<open>int(s)\<close> on a string: an optional sign, then decimal digits, where single
  underscores may stand between digits; anything else raises \<^verbatim>\<open>ValueError\<close>. (The
  interpreter's limit on the length of the literal, 4300 digits by default in recent
  versions, beyond which \<^verbatim>\<open>int\<close> also raises \<^verbatim>\<open>ValueError\<close>, is not modelled.)\<close>

fun int_digits :: "nat \<Rightarrow> string \<Rightarrow> nat option" where
  "int_digits acc [] = Some acc"
| "int_digits acc [c] = (if is_digit c then Some (10 * acc + digit_val c) else None)"
| "int_digits acc (c # d # cs) =
     (if is_digit c then int_digits (10 * acc + digit_val c) (d # cs)
      else if c = CHR ''_'' \<and> is_digit d then int_digits (10 * acc + digit_val d) cs
      else None)"

definition int_unsigned :: "string \<Rightarrow> nat option" where
  "int_unsigned s =
     (case s of [] \<Rightarrow> None
      | c # cs \<Rightarrow> if is_digit c then int_digits (digit_val c) cs else None)"

definition py_int :: "string \<Rightarrow> error + int" where
  "py_int s0 =
     (let s = strip s0;
          (neg, body) = (case s of [] \<Rightarrow> (False, [])
                          | c # cs \<Rightarrow> if c = CHR ''-'' then (True, cs)
                                     else if c = CHR ''+'' then (False, cs)
                                     else (False, s))
      in case int_unsigned body of
           None \<Rightarrow> Inl ValueError
         | Some n \<Rightarrow> Inr (if neg then - int n else int n))"

subsection \<open>Python number operations\<close>

text \<open>
  \<^verbatim>\<open>a / b\<close> on two integers is Python's true division: the quotient correctly rounded
  (to nearest, ties to even) to an IEEE binary64 number, \<^verbatim>\<open>ZeroDivisionError\<close> for a zero
  divisor and \<^verbatim>\<open>OverflowError\<close> when the rounded quotient is beyond the binary64 range.
  The binary64 number is represented by its exact value, a rational. In \<open>py_truediv\<close>,
  \<open>e\<close> is the exponent of the quotient (\<open>2^e \<le> |a / b| < 2^(e + 1)\<close>), found from the
  bit lengths of \<open>a\<close> and \<open>b\<close>, and \<open>ulp\<close> is the distance between neighbouring
  binary64 numbers at that exponent: \<open>2^(e - 52)\<close>, and \<open>2^(-1074)\<close> for the subnormal
  numbers below \<open>2^(-1022)\<close>.
\<close>

definition round_half_even :: "rat \<Rightarrow> int" where
  "round_half_even x =
     (let f = \<lfloor>x\<rfloor>; r = x - of_int f
      in if r < 1 / 2 then f else if 1 / 2 < r then f + 1
         else if even f then f else f + 1)"

definition py_truediv :: "int \<Rightarrow> int \<Rightarrow> error + rat" where
  "py_truediv a b =
     (if b = 0 then Inl ZeroDivisionError
      else if a = 0 then Inr 0
      else
        let q = abs (of_int a / of_int b) :: rat;
            d = bitlen (abs a) - bitlen (abs b);
            e = (if q < 2 powi d then d - 1 else d);
            ulp = 2 powi (max e (- 1022) - 52);
            r = of_int (round_half_even (q / ulp)) * ulp
        in if 2 powi 1024 \<le> r then Inl OverflowError
           else Inr (if (a < 0) = (b < 0) then r else - r))"

text \<open>\<^verbatim>\<open>int(math.ceil(x))\<close>\<close>

definition py_ceil :: "rat \<Rightarrow> int" where
  "py_ceil x = \<lceil>x\<rceil>"

subsection \<open>parse_search_page (lines 25-45)\<close>

definition get_default :: "string option \<Rightarrow> string \<Rightarrow> string" where
  "get_default r d = (case r of None \<Rightarrow> d | Some s \<Rightarrow> s)"

definition parse_search_page :: "(string \<Rightarrow> string \<Rightarrow> string) \<Rightarrow> response \<Rightarrow> Preview list" where
  "parse_search_page urljoin resp =
     map (\<lambda>box. \<lparr> url = urljoin (response_url resp) (get_default (title_href box) ''''),
                  name = strip (get_default (title_text box) ''''),
                  numberOfReviews = '''',
                  rating = Some '''',
                  address = '''' \<rparr>)
         (listing_boxes resp)"

subsection \<open>scrape_restaurant_details (lines 47-60)\<close>

text \<open>\<^verbatim>\<open>re.search(r'bubble_(\d+)', s)\<close>, group 1: the digits after the leftmost
  \<^verbatim>\<open>bubble_\<close> that is followed by a digit.\<close>

fun re_bubble :: "string \<Rightarrow> string option" where
  "re_bubble [] = None"
| "re_bubble (c # cs) =
     (if startswith (c # cs) ''bubble_'' \<and> takeWhile is_digit (drop 7 (c # cs)) \<noteq> []
      then Some (takeWhile is_digit (drop 7 (c # cs)))
      else re_bubble cs)"

text \<open>\<^verbatim>\<open>SelectorList.re_first\<close>: the first match in the first selected node that has
  one, \<^verbatim>\<open>None\<close> (the default of \<^verbatim>\<open>re_first\<close>) when no node has one.\<close>

fun re_first :: "string list \<Rightarrow> string option" where
  "re_first [] = None"
| "re_first (s # ss) = (case re_bubble s of Some m \<Rightarrow> Some m | None \<Rightarrow> re_first ss)"

definition scrape_restaurant_details ::
  "client \<Rightarrow> string \<Rightarrow> error + (string \<times> string option \<times> string)" where
  "scrape_restaurant_details get restaurant_url =
     (case get restaurant_url of
        None \<Rightarrow> Inl TransportError
      | Some resp \<Rightarrow>
          if status_code resp \<noteq> 200
          then Inl (AssertionError ''Failed to retrieve restaurant page'')
          else
            let addr = strip (get_default (address_text resp) '''');
                number_of_reviews = strip (get_default (review_count_text resp) '''');
                rtg = re_first (bubble_rating_classes resp)
            in Inr (number_of_reviews, rtg, addr))"

subsection \<open>scrape_search (lines 62-107)\<close>

text \<open>Lines 76-77: the total number of results, from the text of the results-count label.\<close>

definition total_results_of :: "response \<Rightarrow> error + int" where
  "total_results_of first_page =
     (let total_results_text = get_default (results_count_text first_page) ''''
      in if total_results_text \<noteq> ''''
         then (case split total_results_text of
                 [] \<Rightarrow> Inl IndexError
               | w # _ \<Rightarrow> py_int (replace w '','' ''''))
         else Inr 0)"

text \<open>Lines 78-79: the link to the next page, made absolute; an empty \<^verbatim>\<open>href\<close> is falsy.\<close>

definition next_page_url_of ::
  "(string \<Rightarrow> string \<Rightarrow> string) \<Rightarrow> string \<Rightarrow> response \<Rightarrow> string option" where
  "next_page_url_of urljoin search_url first_page =
     (case next_page_href first_page of
        None \<Rightarrow> None
      | Some h \<Rightarrow> if h \<noteq> '''' then Some (urljoin search_url h) else None)"

text \<open>Line 80.\<close>

definition total_pages_of :: "int \<Rightarrow> nat \<Rightarrow> error + int" where
  "total_pages_of total_results page_size =
     (if total_results \<noteq> 0
      then (case py_truediv total_results (int page_size) of
              Inl e \<Rightarrow> Inl e
            | Inr x \<Rightarrow> Inr (py_ceil x))
      else Inr 1)"

text \<open>Lines 83-85: \<^verbatim>\<open>if max_pages and total_pages > max_pages\<close>; \<^verbatim>\<open>None\<close> and \<^verbatim>\<open>0\<close> are
  both falsy.\<close>

definition limit_pages :: "int option \<Rightarrow> int \<Rightarrow> int" where
  "limit_pages max_pages total_pages =
     (case max_pages of
        None \<Rightarrow> total_pages
      | Some m \<Rightarrow> if m \<noteq> 0 \<and> total_pages > m then m else total_pages)"

text \<open>Lines 90-93: \<^verbatim>\<open>range(1, total_pages)\<close> is empty when \<^verbatim>\<open>total_pages\<close> is at most 1;
  an empty next-page URL is falsy.\<close>

definition other_page_urls_of :: "string option \<Rightarrow> nat \<Rightarrow> int \<Rightarrow> string list" where
  "other_page_urls_of next_page_url page_size total_pages =
     (case next_page_url of
        None \<Rightarrow> []
      | Some n \<Rightarrow>
          if n \<noteq> ''''
          then map (\<lambda>i. replace n (''oa'' @ str_nat page_size) (''oa'' @ str_nat (page_size * i)))
                   [1 ..< nat total_pages]
          else [])"

text \<open>Lines 96-98: the responses are taken in completion order and parsed whatever their
  status; the first \<^verbatim>\<open>await\<close> that raises ends the loop and the call.\<close>

fun extend_results ::
  "client \<Rightarrow> (string \<Rightarrow> string \<Rightarrow> string) \<Rightarrow> Preview list \<Rightarrow> string list \<Rightarrow> error + Preview list" where
  "extend_results get urljoin results [] = Inr results"
| "extend_results get urljoin results (u # us) =
     (case get u of
        None \<Rightarrow> Inl TransportError
      | Some resp \<Rightarrow> extend_results get urljoin (results @ parse_search_page urljoin resp) us)"

definition as_completed :: "(string \<Rightarrow> nat) \<Rightarrow> string list \<Rightarrow> string list" where
  "as_completed completion urls = sort_key completion urls"

text \<open>Lines 101-105: one detail request per record, in list order; the record's dictionary
  is updated in place. The first component of the result lists the requests made.\<close>

fun enrich :: "client \<Rightarrow> Preview list \<Rightarrow> request list \<times> (error + Preview list)" where
  "enrich get [] = ([], Inr [])"
| "enrich get (r # rs) =
     (case scrape_restaurant_details get (url r) of
        Inl e \<Rightarrow> ([DetailPage (url r)], Inl e)
      | Inr (number_of_reviews, rtg, addr) \<Rightarrow>
          (case enrich get rs of
             (lg, Inl e) \<Rightarrow> (DetailPage (url r) # lg, Inl e)
           | (lg, Inr rs') \<Rightarrow>
               (DetailPage (url r) # lg,
                Inr (r\<lparr> numberOfReviews := number_of_reviews, rating := rtg, address := addr \<rparr>
                     # rs'))))"

text \<open>The whole call. The result pairs the requests made, in the order they are issued,
  with the outcome: the exception that escapes, or the list returned.\<close>

definition scrape_search ::
  "client \<Rightarrow> (string \<Rightarrow> nat) \<Rightarrow> (string \<Rightarrow> string \<Rightarrow> string) \<Rightarrow> string \<Rightarrow> int option
     \<Rightarrow> request list \<times> (error + Preview list)" where
  "scrape_search get completion urljoin search_url max_pages =
     (case get search_url of
        None \<Rightarrow> ([ListingPage search_url], Inl TransportError)
      | Some first_page \<Rightarrow>
          if status_code first_page \<noteq> 200
          then ([ListingPage search_url], Inl (AssertionError ''Scraper is being blocked''))
          else
            let results = parse_search_page urljoin first_page
            in if results = [] then ([ListingPage search_url], Inr [])
               else
                 let page_size = length results
                 in (case total_results_of first_page of
                      Inl e \<Rightarrow> ([ListingPage search_url], Inl e)
                    | Inr total_results \<Rightarrow>
                        let next_page_url = next_page_url_of urljoin search_url first_page
                        in (case total_pages_of total_results page_size of
                             Inl e \<Rightarrow> ([ListingPage search_url], Inl e)
                           | Inr total_pages0 \<Rightarrow>
                               let total_pages = limit_pages max_pages total_pages0;
                                   other_page_urls =
                                     other_page_urls_of next_page_url page_size total_pages
                               in (case extend_results get urljoin results
                                         (as_completed completion other_page_urls) of
                                    Inl e \<Rightarrow>
                                      (map ListingPage (search_url # other_page_urls), Inl e)
                                  | Inr results' \<Rightarrow>
                                      (case enrich get results' of
                                         (lg, out) \<Rightarrow>
                                           (map ListingPage (search_url # other_page_urls) @ lg,
                                            out))))))"

section \<open>Sample inputs\<close>

text \<open>On an absolute reference \<^verbatim>\<open>urljoin\<close> returns the reference; the samples use absolute
  references only.\<close>

definition absolute_join :: "string \<Rightarrow> string \<Rightarrow> string" where
  "absolute_join base href = href"

definition blank_page :: response where
  "blank_page =
     \<lparr> status_code = 200, response_url = ''http://t/s'', listing_boxes = [],
       results_count_text = None, next_page_href = None, address_text = None,
       review_count_text = None, bubble_rating_classes = [] \<rparr>"

definition listing_page :: "string list \<Rightarrow> response" where
  "listing_page hrefs =
     blank_page\<lparr> listing_boxes := map (\<lambda>h. \<lparr> title_text = Some ''R'', title_href = Some h \<rparr>) hrefs \<rparr>"

definition detail_page :: response where
  "detail_page =
     blank_page\<lparr> address_text := Some '' 1 rue A '', review_count_text := Some ''12 reviews'',
                 bubble_rating_classes := [''ui_bubble_rating bubble_45''] \<rparr>"

definition preview_of :: "string \<Rightarrow> Preview" where
  "preview_of h = \<lparr> url = h, name = ''R'', numberOfReviews = '''', rating = Some '''', address = '''' \<rparr>"

definition enriched :: "string \<Rightarrow> Preview" where
  "enriched h = \<lparr> url = h, name = ''R'', numberOfReviews = ''12 reviews'', rating = Some ''45'',
                  address = ''1 rue A'' \<rparr>"

text \<open>A site that answers every request with status 503.\<close>

definition blocked_site :: client where
  "blocked_site u = Some (blank_page\<lparr> status_code := 503 \<rparr>)"

text \<open>A site with one listing page of two restaurants; every other URL is a detail page.\<close>

definition small_site :: client where
  "small_site u =
     (if u = ''http://t/s'' then Some (listing_page [''http://t/r1'', ''http://t/r2''])
      else Some detail_page)"

text \<open>A first listing page with one restaurant, a results-count label and a link to the
  next page, whose offset token is \<^verbatim>\<open>oa1\<close>.\<close>

definition first_page_of :: "string \<Rightarrow> response" where
  "first_page_of count_text =
     (listing_page [''http://t/r1''])
       \<lparr> results_count_text := Some count_text, next_page_href := Some ''http://t/s-oa1'' \<rparr>"

text \<open>Three results on pages of one: the second page answers with status 503 and a body
  that still holds a listing, the request for the third page raises a transport error.\<close>

definition paged_site :: client where
  "paged_site u =
     (if u = ''http://t/s'' then Some (first_page_of ''3 results'')
      else if u = ''http://t/s-oa1''
        then Some ((listing_page [''http://t/r2''])\<lparr> status_code := 503 \<rparr>)
      else if u = ''http://t/s-oa2'' then None
      else Some detail_page)"

text \<open>The detail page of the first restaurant answers with status 503.\<close>

definition failing_detail_site :: client where
  "failing_detail_site u =
     (if u = ''http://t/s'' then Some (listing_page [''http://t/r2'', ''http://t/r1'', ''http://t/r3''])
      else if u = ''http://t/r1'' then Some (detail_page\<lparr> status_code := 503 \<rparr>)
      else Some detail_page)"


text \<open>The rating element of the detail page has no \<^verbatim>\<open>bubble_NN\<close> class.\<close>

definition unrated_site :: client where
  "unrated_site u =
     (if u = ''http://t/s'' then Some (listing_page [''http://t/r1''])
      else Some (detail_page\<lparr> bubble_rating_classes := [''ui_bubble_rating''] \<rparr>))"

text \<open>A listing page without any listing.\<close>

definition empty_site :: client where
  "empty_site u = Some blank_page"

text \<open>Five results on pages of one; every planned page holds one listing.\<close>

definition five_page_site :: client where
  "five_page_site u =
     (if u = ''http://t/s'' then Some (first_page_of ''5 results'')
      else if startswith u ''http://t/s-oa'' then Some (listing_page [''http://t/r2''])
      else Some detail_page)"

text \<open>Five results on pages of two: the offset token of the next-page link is
  \<^verbatim>\<open>oa2\<close>.\<close>

definition pairs_first_page :: response where
  "pairs_first_page =
     (listing_page [''http://t/r1'', ''http://t/r2''])
       \<lparr> results_count_text := Some ''5 results'', next_page_href := Some ''http://t/s-oa2'' \<rparr>"

definition pairs_site :: client where
  "pairs_site u =
     (if u = ''http://t/s'' then Some pairs_first_page
      else if u = ''http://t/s-oa2'' then Some (listing_page [''http://t/r3'', ''http://t/r4''])
      else if u = ''http://t/s-oa4'' then Some (listing_page [''http://t/r5''])
      else Some detail_page)"

section \<open>Properties\<close>

subsection \<open>Auxiliary facts\<close>

lemma details_ok:
  "get u = Some resp \<Longrightarrow> status_code resp = 200 \<Longrightarrow>
   scrape_restaurant_details get u =
     Inr (strip (get_default (review_count_text resp) ''''), re_first (bubble_rating_classes resp),
          strip (get_default (address_text resp) ''''))"
  by (simp add: scrape_restaurant_details_def)

lemma details_error:
  "scrape_restaurant_details get u = Inl e \<Longrightarrow>
   e = TransportError \<or> e = AssertionError ''Failed to retrieve restaurant page''"
  by (auto simp: scrape_restaurant_details_def Let_def split: option.splits if_splits)

lemma details_returns:
  "scrape_restaurant_details get u = Inr d \<Longrightarrow> \<exists>resp. get u = Some resp \<and> status_code resp = 200"
  by (auto simp: scrape_restaurant_details_def Let_def split: option.splits if_splits)

lemma enrich_frame:
  "enrich get rs = (lg, Inr rs') \<Longrightarrow>
   length rs' = length rs \<and> map url rs' = map url rs \<and> map name rs' = map name rs"
proof (induction rs arbitrary: lg rs')
  case Nil
  then show ?case by simp
next
  case (Cons r rs)
  then show ?case
    by (auto split: sum.splits prod.splits)
qed

lemma enrich_returns:
  "\<forall>r \<in> set rs. \<exists>resp. get (url r) = Some resp \<and> status_code resp = 200 \<Longrightarrow>
   \<exists>rs'. enrich get rs = (map (DetailPage \<circ> url) rs, Inr rs')"
proof (induction rs)
  case Nil
  then show ?case by simp
next
  case (Cons r rs)
  then obtain rs' where "enrich get rs = (map (DetailPage \<circ> url) rs, Inr rs')" by auto
  moreover from Cons.prems obtain resp where "get (url r) = Some resp" "status_code resp = 200"
    by auto
  ultimately show ?case
    by (simp add: details_ok)
qed

lemma enrich_error:
  "enrich get rs = (lg, Inl e) \<Longrightarrow>
   e = TransportError \<or> e = AssertionError ''Failed to retrieve restaurant page''"
proof (induction rs arbitrary: lg)
  case Nil
  then show ?case by simp
next
  case (Cons r rs)
  then show ?case
    by (auto split: sum.splits prod.splits dest: details_error)
qed

lemma enrich_fetched:
  "enrich get rs = (lg, Inr rs') \<Longrightarrow>
   \<forall>r \<in> set rs. \<exists>resp. get (url r) = Some resp \<and> status_code resp = 200"
proof (induction rs arbitrary: lg rs')
  case Nil
  then show ?case by simp
next
  case (Cons r rs)
  then show ?case
    by (auto split: sum.splits prod.splits dest: details_returns)
qed

lemma enrich_aborts:
  assumes "\<forall>r \<in> set pre. \<exists>resp. get (url r) = Some resp \<and> status_code resp = 200"
    and "get (url r) = Some resp" and "status_code resp \<noteq> 200"
  shows "enrich get (pre @ r # post) =
     (map (DetailPage \<circ> url) (pre @ [r]),
      Inl (AssertionError ''Failed to retrieve restaurant page''))"
  using assms(1)
proof (induction pre)
  case Nil
  then show ?case using assms(2,3) by (simp add: scrape_restaurant_details_def)
next
  case (Cons p pre)
  then obtain presp where "get (url p) = Some presp" "status_code presp = 200" by auto
  with Cons show ?case by (simp add: details_ok)
qed

lemma extend_results_ok:
  "\<forall>u \<in> set us. get u \<noteq> None \<Longrightarrow>
   extend_results get urljoin results us =
     Inr (results @ concat (map (\<lambda>u. parse_search_page urljoin (the (get u))) us))"
  by (induction us arbitrary: results) (auto split: option.splits)

lemma extend_results_fails:
  "\<exists>u \<in> set us. get u = None \<Longrightarrow> extend_results get urljoin results us = Inl TransportError"
  by (induction us arbitrary: results) (auto split: option.splits)

lemma scrape_search_paged:
  assumes "get search_url = Some first_page" "status_code first_page = 200"
    "parse_search_page urljoin first_page \<noteq> []"
    "total_results_of first_page = Inr total_results"
    "total_pages_of total_results (length (parse_search_page urljoin first_page)) = Inr total_pages0"
  shows "scrape_search get completion urljoin search_url max_pages =
     (let results = parse_search_page urljoin first_page;
          other_page_urls =
            other_page_urls_of (next_page_url_of urljoin search_url first_page) (length results)
              (limit_pages max_pages total_pages0)
      in case extend_results get urljoin results (as_completed completion other_page_urls) of
           Inl e \<Rightarrow> (map ListingPage (search_url # other_page_urls), Inl e)
         | Inr results' \<Rightarrow>
             (map ListingPage (search_url # other_page_urls) @ fst (enrich get results'),
              snd (enrich get results')))"
  using assms by (simp add: scrape_search_def Let_def split: sum.splits prod.splits)

lemma py_int_error: "py_int s = Inl e \<Longrightarrow> e = ValueError"
  by (auto simp: py_int_def Let_def split: option.splits prod.splits)

lemma total_results_error:
  "total_results_of fp = Inl e \<Longrightarrow> e = ValueError \<or> e = IndexError"
  by (auto simp: total_results_of_def Let_def split: if_splits list.splits dest: py_int_error)

lemma total_pages_error:
  "0 < P \<Longrightarrow> total_pages_of T P = Inl e \<Longrightarrow> e = OverflowError"
  by (auto simp: total_pages_of_def py_truediv_def Let_def split: if_splits sum.splits)

lemma listing_urls_append: "listing_urls (xs @ ys) = listing_urls xs @ listing_urls ys"
  by (induction xs rule: listing_urls.induct) auto

lemma listing_urls_map: "listing_urls (map ListingPage us) = us"
  by (induction us) auto

lemma enrich_log: "listing_urls (fst (enrich get rs)) = []"
  by (induction rs) (auto split: sum.splits prod.splits)

lemma enrich_out_fetched:
  assumes "enrich get rs = (lg, Inr rs')"
  shows "\<forall>r \<in> set rs'. \<exists>resp. get (url r) = Some resp \<and> status_code resp = 200"
proof
  fix r' assume "r' \<in> set rs'"
  then have "url r' \<in> set (map url rs')" by simp
  also have "map url rs' = map url rs" using enrich_frame [OF assms] by simp
  finally obtain r where "r \<in> set rs" "url r = url r'" by auto
  with enrich_fetched [OF assms]
  show "\<exists>resp. get (url r') = Some resp \<and> status_code resp = 200" by metis
qed

lemma sum_list_as_completed:
  "sum_list (map f (as_completed completion us)) = sum_list (map (f :: string \<Rightarrow> nat) us)"
proof -
  have "sum_list (map f (as_completed completion us)) =
        sum_mset (image_mset f (mset (as_completed completion us)))"
    by (metis mset_map sum_mset_sum_list)
  also have "\<dots> = sum_mset (image_mset f (mset us))"
    by (simp add: as_completed_def)
  also have "\<dots> = sum_list (map f us)"
    by (metis mset_map sum_mset_sum_list)
  finally show ?thesis .
qed

lemma set_as_completed: "set (as_completed completion us) = set us"
  by (simp add: as_completed_def)

text \<open>The three ways a call ends.\<close>

lemma scrape_search_cases:
  assumes "scrape_search get completion urljoin search_url max_pages = (lg, res)"
  obtains
    (early) "lg = [ListingPage search_url]"
      "res = Inl TransportError \<and> get search_url = None \<or>
       (\<exists>fp. get search_url = Some fp \<and>
          (res = Inl (AssertionError ''Scraper is being blocked'') \<and> status_code fp \<noteq> 200 \<or>
           res = Inr [] \<and> status_code fp = 200 \<and> parse_search_page urljoin fp = [] \<or>
           res = Inl ValueError \<or> res = Inl IndexError \<or> res = Inl OverflowError))"
  | (crawl) fp us where "get search_url = Some fp" "lg = map ListingPage (search_url # us)"
      "res = Inl TransportError" "\<exists>u \<in> set us. get u = None"
  | (enrich) fp us lg' where "get search_url = Some fp" "status_code fp = 200"
      "\<forall>u \<in> set us. get u \<noteq> None"
      "lg = map ListingPage (search_url # us) @ lg'"
      "enrich get (parse_search_page urljoin fp @
         concat (map (\<lambda>u. parse_search_page urljoin (the (get u))) (as_completed completion us)))
       = (lg', res)"
proof (cases "get search_url")
  case None
  with assms have "lg = [ListingPage search_url]" "res = Inl TransportError"
    by (auto simp: scrape_search_def)
  with None show ?thesis using early by blast
next
  case (Some fp)
  show ?thesis
  proof (cases "status_code fp = 200 \<and> parse_search_page urljoin fp \<noteq> []")
    case False
    with assms Some have "lg = [ListingPage search_url]"
      "res = Inl (AssertionError ''Scraper is being blocked'') \<and> status_code fp \<noteq> 200 \<or>
       res = Inr [] \<and> status_code fp = 200 \<and> parse_search_page urljoin fp = []"
      by (auto simp: scrape_search_def Let_def split: if_splits)
    with Some show ?thesis using early by blast
  next
    case ok: True
    show ?thesis
    proof (cases "total_results_of fp")
      case (Inl e)
      with assms Some ok have "lg = [ListingPage search_url]" "res = Inl e"
        by (auto simp: scrape_search_def Let_def)
      with Some total_results_error [OF Inl] show ?thesis using early by blast
    next
      case T: (Inr T)
      show ?thesis
      proof (cases "total_pages_of T (length (parse_search_page urljoin fp))")
        case (Inl e)
        with assms Some ok T have "lg = [ListingPage search_url]" "res = Inl e"
          by (auto simp: scrape_search_def Let_def)
        moreover have "e = OverflowError"
          using total_pages_error [OF _ Inl] ok by simp
        ultimately show ?thesis using Some early by blast
      next
        case N: (Inr N)
        define us where "us = other_page_urls_of (next_page_url_of urljoin search_url fp)
          (length (parse_search_page urljoin fp)) (limit_pages max_pages N)"
        from ok have s200: "status_code fp = 200" and ne: "parse_search_page urljoin fp \<noteq> []"
          by auto
        note run = scrape_search_paged [where get = get and search_url = search_url
            and completion = completion and max_pages = max_pages,
            OF Some s200 ne T N, unfolded Let_def, folded us_def]
        show ?thesis
        proof (cases "\<exists>u \<in> set us. get u = None")
          case True
          then have "extend_results get urljoin (parse_search_page urljoin fp)
              (as_completed completion us) = Inl TransportError"
            by (intro extend_results_fails) (simp add: set_as_completed)
          with run have "scrape_search get completion urljoin search_url max_pages =
              (map ListingPage (search_url # us), Inl TransportError)"
            by simp
          with assms have "lg = map ListingPage (search_url # us)" "res = Inl TransportError"
            by simp_all
          with Some True show ?thesis using crawl by blast
        next
          case False
          define rs where "rs = parse_search_page urljoin fp @
                concat (map (\<lambda>u. parse_search_page urljoin (the (get u)))
                  (as_completed completion us))"
          from False have all: "\<forall>u \<in> set us. get u \<noteq> None" by simp
          then have "extend_results get urljoin (parse_search_page urljoin fp)
              (as_completed completion us) = Inr rs"
            unfolding rs_def by (intro extend_results_ok) (simp add: set_as_completed)
          with run have "scrape_search get completion urljoin search_url max_pages =
              (map ListingPage (search_url # us) @ fst (enrich get rs), snd (enrich get rs))"
            by simp
          with assms have "lg = map ListingPage (search_url # us) @ fst (enrich get rs)"
            "res = snd (enrich get rs)"
            by simp_all
          then have "enrich get rs = (fst (enrich get rs), res)"
            "lg = map ListingPage (search_url # us) @ fst (enrich get rs)"
            by simp_all
          with Some s200 all show ?thesis
            using enrich [of fp us "fst (enrich get rs)"] unfolding rs_def by blast
        qed
      qed
    qed
  qed
qed

lemma scrape_search_listing_urls:
  assumes "get search_url = Some first_page" "status_code first_page = 200"
    "parse_search_page urljoin first_page \<noteq> []"
    "total_results_of first_page = Inr total_results"
    "total_pages_of total_results (length (parse_search_page urljoin first_page)) = Inr total_pages0"
  shows "listing_urls (fst (scrape_search get completion urljoin search_url max_pages)) =
     search_url #
     other_page_urls_of (next_page_url_of urljoin search_url first_page)
       (length (parse_search_page urljoin first_page)) (limit_pages max_pages total_pages0)"
  unfolding scrape_search_paged [where get = get and search_url = search_url, OF assms] Let_def
  by (simp add: listing_urls_append listing_urls_map enrich_log split: sum.splits)

lemma replace_from_skip:
  "replace_from (length xs) old new (xs @ s) = replace_from 0 old new s"
  by (induction xs) auto

lemma replace_from_occurrence:
  assumes "old \<noteq> []"
  shows "replace_from 0 old new (old @ s) = new @ replace_from 0 old new s"
proof -
  from assms obtain c cs where old: "old = c # cs" by (cases old) auto
  have "replace_from 0 old new (c # cs @ s) = new @ replace_from (length cs) old new (cs @ s)"
    by (simp add: startswith_def old)
  then show ?thesis by (simp add: old replace_from_skip)
qed

lemma replace_from_first:
  assumes "old \<noteq> []"
    and "\<forall>k < length pre. \<not> startswith (drop k (pre @ old @ post)) old"
  shows "replace_from 0 old new (pre @ old @ post) = pre @ new @ replace_from 0 old new post"
  using assms(2)
proof (induction pre)
  case Nil
  then show ?case using replace_from_occurrence [OF assms(1)] by simp
next
  case (Cons c pre)
  from Cons.prems have "\<not> startswith (c # pre @ old @ post) old" by force
  moreover from Cons.prems have "\<forall>k < length pre. \<not> startswith (drop k (pre @ old @ post)) old"
    by force
  ultimately show ?case using Cons.IH by simp
qed

lemma map_pages: "map (\<lambda>i. f (i - 1)) [Suc a ..< Suc b] = map f [a ..< b]"
  by (induction b) auto

lemma replace_from_same:
  "old \<noteq> [] \<Longrightarrow> replace_from k old old s = drop k s"
proof (induction s arbitrary: k)
  case Nil
  then show ?case by simp
next
  case (Cons c cs)
  show ?case
  proof (cases "0 < k")
    case True
    then show ?thesis using Cons by (cases k) auto
  next
    case False
    show ?thesis
    proof (cases "startswith (c # cs) old")
      case True
      then have "old = take (length old) (c # cs)" by (simp add: startswith_def)
      moreover from Cons.prems have "0 < length old" by simp
      ultimately have "old @ drop (length old - 1) cs = c # cs"
        by (metis Cons_nth_drop_Suc One_nat_def Suc_pred append_take_drop_id drop0 drop_Suc_Cons)
      with True False Cons show ?thesis by simp
    next
      case no: False
      with False Cons show ?thesis by simp
    qed
  qed
qed

lemma intersperse_empty: "intersperse_new [] s = s"
  by (induction s) auto

lemma replace_same: "replace s old old = s"
  by (simp add: replace_def replace_from_same intersperse_empty)

lemma round_half_even_near:
  "of_int (round_half_even x) \<le> x + 1 / 2" "x - 1 / 2 \<le> of_int (round_half_even x)"
  unfolding round_half_even_def Let_def by (auto; linarith)+

lemma round_half_even_le:
  assumes "x \<le> of_int m"
  shows "round_half_even x \<le> m"
proof -
  have "\<lfloor>x\<rfloor> \<le> m" using assms by (simp add: floor_le_iff) 
  show ?thesis
  proof (cases "\<lfloor>x\<rfloor> = m")
    case True
    then have "x = of_int m" using assms by (metis of_int_floor_le order_antisym)
    then show ?thesis by (simp add: round_half_even_def)
  next
    case False
    with \<open>\<lfloor>x\<rfloor> \<le> m\<close> have "\<lfloor>x\<rfloor> + 1 \<le> m" by simp
    then show ?thesis unfolding round_half_even_def Let_def by auto
  qed
qed


lemma exponent_lower:
  fixes a b :: int
  assumes "0 < a" "0 < b"
  defines "q \<equiv> of_int a / of_int b :: rat"
  defines "d \<equiv> bitlen a - bitlen b"
  shows "2 powi (d - 1) \<le> q"
proof -
  have la: "2 ^ nat (bitlen a - 1) \<le> a" and lb: "b < 2 ^ nat (bitlen b)"
    using bitlen_bounds assms by blast+
  have ba: "1 \<le> bitlen a" using assms(1) by (simp add: bitlen_alt_def)
  have bb: "0 \<le> bitlen b" by (rule bitlen_nonneg)
  have "(2::rat) powi (bitlen a - 1) = 2 ^ nat (bitlen a - 1)"
    using ba by (simp add: power_int_nonneg_exp)
  also have "\<dots> \<le> of_int a" using la by (metis of_int_le_iff of_int_numeral of_int_power)
  finally have A: "(2::rat) powi (bitlen a - 1) \<le> of_int a" .
  have "(of_int b :: rat) \<le> 2 ^ nat (bitlen b)"
    using lb by (metis less_imp_le of_int_le_iff of_int_numeral of_int_power)
  also have "\<dots> = 2 powi (bitlen b)" using bb by (simp add: power_int_nonneg_exp)
  finally have B: "(of_int b :: rat) \<le> 2 powi (bitlen b)" .
  have "(2::rat) powi (d - 1) = 2 powi (bitlen a - 1) / 2 powi (bitlen b)"
    unfolding d_def by (simp add: power_int_diff)
  also have "\<dots> \<le> of_int a / of_int b"
    using A B assms(1,2) by (intro frac_le) auto
  finally show ?thesis by (simp add: q_def)
qed

lemma py_truediv_ceiling:
  fixes a b :: int
  assumes a: "0 < a" "a < 2 ^ 53" and b: "0 < b" "b < 2 ^ 53"
  shows "\<exists>x. py_truediv a b = Inr x \<and> \<lceil>x\<rceil> = \<lceil>of_int a / of_int b :: rat\<rceil>"
proof -
  define q :: rat where "q = of_int a / of_int b"
  define d where "d = bitlen a - bitlen b"
  define e where "e = (if q < 2 powi d then d - 1 else d)"
  define u :: rat where "u = 2 powi (max e (- 1022) - 52)"
  define r :: rat where "r = of_int (round_half_even (q / u)) * u"
  define n where "n = \<lceil>q\<rceil> - 1"
  have qpos: "0 < q" using a b by (simp add: q_def)
  have e_low: "2 powi e \<le> q"
    using exponent_lower [OF a(1) b(1)] by (auto simp: e_def q_def d_def)
  have ra: "(of_int a :: rat) < 2 ^ 53"
    using a(2) by (metis of_int_less_iff of_int_numeral of_int_power)
  have rb: "(of_int b :: rat) < 2 ^ 53"
    using b(2) by (metis of_int_less_iff of_int_numeral of_int_power)
  have rb1: "(1 :: rat) \<le> of_int b" using b(1) by simp
  have "q \<le> of_int a"
    unfolding q_def using a(1) rb1 by (simp add: divide_le_eq mult_le_cancel_left1)
  with ra have q_high: "q < 2 powi 53" by simp
  have e_le: "e \<le> 52"
  proof (rule ccontr)
    assume "\<not> e \<le> 52"
    then have "53 \<le> e" by simp
    then have "(2 :: rat) powi 53 \<le> 2 powi e" by (intro power_int_increasing) auto
    with e_low q_high show False by simp
  qed
  have ba: "1 \<le> bitlen a" using a(1) by (simp add: bitlen_alt_def)
  have bb: "bitlen b \<le> 53" using b by (simp add: bitlen_le_iff_power)
  have e_ge: "- 53 \<le> e" using ba bb by (simp add: e_def d_def)
  then have u_eq: "u = 2 powi (e - 52)" by (simp add: u_def max_def)
  define k where "k = nat (52 - e)"
  have u_inv: "u = 1 / 2 ^ k"
    using e_le by (simp add: u_eq k_def power_int_def power_divide)
  have upos: "0 < u" by (simp add: u_inv)
  have u_le: "u \<le> q / 2 ^ 52"
  proof -
    have "u = 2 powi e / 2 ^ 52" by (simp add: u_eq power_int_diff)
    also have "\<dots> \<le> q / 2 ^ 52" using e_low by (simp add: divide_right_mono)
    finally show ?thesis .
  qed
  have n_lt: "of_int n < q" and n_ge: "q \<le> of_int n + 1"
    unfolding n_def by (simp_all add: le_of_int_ceiling) linarith
  have upper: "r \<le> of_int n + 1"
  proof -
    have "q / u \<le> of_int ((n + 1) * 2 ^ k)"
      using n_ge by (simp add: u_inv)
    then have "round_half_even (q / u) \<le> (n + 1) * 2 ^ k"
      by (rule round_half_even_le)
    then have "(of_int (round_half_even (q / u)) :: rat) \<le> of_int ((n + 1) * 2 ^ k)"
      by (simp only: of_int_le_iff)
    then have "r \<le> of_int ((n + 1) * 2 ^ k) * u"
      unfolding r_def using upos by (simp add: mult_right_mono)
    also have "\<dots> = of_int n + 1" by (simp add: u_inv)
    finally show ?thesis .
  qed
  have lower: "of_int n < r"
  proof -
    have "of_int b * q = of_int a" using b(1) by (simp add: q_def)
    moreover have "of_int b * (of_int n :: rat) < of_int b * q"
      using n_lt b(1) by simp
    ultimately have "(of_int (b * n) :: rat) < of_int a" by simp
    then have "b * n + 1 \<le> a" by (simp only: of_int_less_iff)
    then have "(of_int (b * n + 1) :: rat) \<le> of_int a" by (simp only: of_int_le_iff)
    then have "(of_int (b * n + 1) :: rat) / of_int b \<le> of_int a / of_int b"
      using b(1) by (intro divide_right_mono) simp_all
    moreover have "(of_int (b * n + 1) :: rat) / of_int b = of_int n + 1 / of_int b"
      using b(1) by (simp add: field_simps)
    ultimately have gap: "of_int n + 1 / of_int b \<le> q"
      by (simp add: q_def)
    have "u * of_int b \<le> of_int a / 2 ^ 52"
      using u_le b(1) by (simp add: q_def field_simps)
    also have "\<dots> < 2" using ra by simp
    finally have "u / 2 < 1 / of_int b" using b(1) by (simp add: field_simps)
    with gap have "of_int n < q - u / 2" by linarith
    also have "\<dots> = (q / u - 1 / 2) * u" using upos by (simp add: field_simps)
    also have "\<dots> \<le> r"
      unfolding r_def using round_half_even_near(2) [of "q / u"] upos
      by (simp add: mult_right_mono)
    finally show ?thesis .
  qed
  have "(2 :: rat) powi 54 \<le> 2 powi 1024" by (intro power_int_increasing) auto
  moreover have "(2 :: rat) powi 53 + 1 \<le> 2 powi 54" by simp
  moreover have "of_int n + 1 \<le> q + 1" using n_lt by simp
  ultimately have "r < 2 powi 1024" using upper q_high by linarith
  then have no_overflow: "\<not> 2 powi 1024 \<le> r" by simp
  have "abs (of_int a :: rat) = of_int a" "abs (of_int b :: rat) = of_int b"
    using a(1) b(1) by simp_all
  then have "py_truediv a b = (if 2 powi 1024 \<le> r then Inl OverflowError else Inr r)"
    unfolding py_truediv_def Let_def r_def u_def e_def d_def q_def
    using a(1) b(1) by (simp del: power_int_numeral)
  with no_overflow have "py_truediv a b = Inr r" by (simp only: if_False)
  moreover have "\<lceil>r\<rceil> = n + 1" using lower upper by (simp add: ceiling_unique)
  moreover have "\<lceil>q\<rceil> = n + 1" by (simp add: n_def)
  ultimately show ?thesis by (simp add: q_def)
qed
















lemma enrich_failed_logged:
  "enrich get rs = (lg, res) \<Longrightarrow> DetailPage u \<in> set lg \<Longrightarrow>
   get u = Some resp \<Longrightarrow> status_code resp \<noteq> 200 \<Longrightarrow>
   res = Inl (AssertionError ''Failed to retrieve restaurant page'')"
proof (induction rs arbitrary: lg res)
  case Nil
  then show ?case by simp
next
  case (Cons r rs)
  show ?case
  proof (cases "scrape_restaurant_details get (url r)")
    case (Inl e)
    with Cons.prems have "u = url r" "res = Inl e" by auto
    with Inl Cons.prems(3,4) show ?thesis
      by (simp add: scrape_restaurant_details_def)
  next
    case (Inr d)
    from details_returns [OF Inr] Cons.prems(3,4) have "u \<noteq> url r" by auto
    moreover obtain lg' res' where rest: "enrich get rs = (lg', res')" by (cases "enrich get rs")
    ultimately have "DetailPage u \<in> set lg'"
      using Cons.prems(1,2) Inr by (auto split: prod.splits sum.splits)
    from Cons.IH [OF rest this Cons.prems(3,4)]
    have "res' = Inl (AssertionError ''Failed to retrieve restaurant page'')" .
    with rest Cons.prems(1) Inr show ?thesis by (auto split: prod.splits)
  qed
qed

subsection \<open>The claims\<close>

text \<open>
  C1 (as the code has it). A detail page that comes back with a status other than 200
  fails the assertion of line 51, and nothing catches it: enrichment stops at that record,
  after the detail requests of the records before it and without those of the records
  after it, and the whole call ends with that \<^verbatim>\<open>AssertionError\<close> and returns no list. So
  every record of a list that the call returns had its detail page fetched with status
  200, and a call that has requested a detail page answered otherwise ends with the
  assertion's error.
\<close>

theorem failed_detail_fetch_aborts:
  "((\<forall>p \<in> set pre. \<exists>presp. get (url p) = Some presp \<and> status_code presp = 200) \<and>
    get (url r) = Some resp \<and> status_code resp \<noteq> 200 \<longrightarrow>
      enrich get (pre @ r # post) =
        (map (DetailPage \<circ> url) (pre @ [r]),
         Inl (AssertionError ''Failed to retrieve restaurant page''))) \<and>
   (scrape_search site completion urljoin search_url max_pages = (lg, Inr out) \<longrightarrow>
      (\<forall>r' \<in> set out. \<exists>resp'. site (url r') = Some resp' \<and> status_code resp' = 200)) \<and>
   (site2 url2 = Some first_page \<and> status_code first_page = 200 \<and>
    parse_search_page join2 first_page \<noteq> [] \<and>
    total_results_of first_page = Inr T \<and>
    total_pages_of T (length (parse_search_page join2 first_page)) = Inr N0 \<and>
    us = other_page_urls_of (next_page_url_of join2 url2 first_page)
           (length (parse_search_page join2 first_page)) (limit_pages limit2 N0) \<and>
    extend_results site2 join2 (parse_search_page join2 first_page) (as_completed completion2 us) =
      Inr (before @ failing # rest) \<and>
    (\<forall>p \<in> set before. \<exists>presp. site2 (url p) = Some presp \<and> status_code presp = 200) \<and>
    site2 (url failing) = Some fresp \<and> status_code fresp \<noteq> 200 \<longrightarrow>
      scrape_search site2 completion2 join2 url2 limit2 =
        (map ListingPage (url2 # us) @ map (DetailPage \<circ> url) (before @ [failing]),
         Inl (AssertionError ''Failed to retrieve restaurant page''))) \<and>
   (scrape_search site3 completion3 join3 url3 limit3 = (lg3, res3) \<and>
    DetailPage u \<in> set lg3 \<and> site3 u = Some uresp \<and> status_code uresp \<noteq> 200 \<longrightarrow>
      res3 = Inl (AssertionError ''Failed to retrieve restaurant page''))"
proof (intro conjI impI)
  assume "(\<forall>p \<in> set pre. \<exists>presp. get (url p) = Some presp \<and> status_code presp = 200) \<and>
    get (url r) = Some resp \<and> status_code resp \<noteq> 200"
  then show "enrich get (pre @ r # post) =
        (map (DetailPage \<circ> url) (pre @ [r]),
         Inl (AssertionError ''Failed to retrieve restaurant page''))"
    using enrich_aborts [of pre get r resp post] by blast
next
  assume "scrape_search site completion urljoin search_url max_pages = (lg, Inr out)"
  then show "\<forall>r' \<in> set out. \<exists>resp'. site (url r') = Some resp' \<and> status_code resp' = 200"
  proof (cases rule: scrape_search_cases)
    case early
    then show ?thesis by auto
  next
    case (crawl fp us)
    then show ?thesis by simp
  next
    case (enrich fp us lg')
    from enrich_out_fetched [OF enrich(5)] show ?thesis .
  qed
next
  assume a: "site2 url2 = Some first_page \<and> status_code first_page = 200 \<and>
    parse_search_page join2 first_page \<noteq> [] \<and>
    total_results_of first_page = Inr T \<and>
    total_pages_of T (length (parse_search_page join2 first_page)) = Inr N0 \<and>
    us = other_page_urls_of (next_page_url_of join2 url2 first_page)
           (length (parse_search_page join2 first_page)) (limit_pages limit2 N0) \<and>
    extend_results site2 join2 (parse_search_page join2 first_page) (as_completed completion2 us) =
      Inr (before @ failing # rest) \<and>
    (\<forall>p \<in> set before. \<exists>presp. site2 (url p) = Some presp \<and> status_code presp = 200) \<and>
    site2 (url failing) = Some fresp \<and> status_code fresp \<noteq> 200"
  then have h: "site2 url2 = Some first_page" "status_code first_page = 200"
    "parse_search_page join2 first_page \<noteq> []" "total_results_of first_page = Inr T"
    "total_pages_of T (length (parse_search_page join2 first_page)) = Inr N0"
    by simp_all
  from a have us: "other_page_urls_of (next_page_url_of join2 url2 first_page)
           (length (parse_search_page join2 first_page)) (limit_pages limit2 N0) = us"
    by blast
  from a have ext: "extend_results site2 join2 (parse_search_page join2 first_page)
      (as_completed completion2 us) = Inr (before @ failing # rest)"
    by blast
  have run: "scrape_search site2 completion2 join2 url2 limit2 =
      (map ListingPage (url2 # us) @ fst (enrich site2 (before @ failing # rest)),
       snd (enrich site2 (before @ failing # rest)))"
    unfolding scrape_search_paged [where get = site2 and search_url = url2
        and completion = completion2 and max_pages = limit2, OF h] Let_def us ext
    by simp
  from a have "enrich site2 (before @ failing # rest) =
      (map (DetailPage \<circ> url) (before @ [failing]),
       Inl (AssertionError ''Failed to retrieve restaurant page''))"
    using enrich_aborts [of before site2 failing fresp rest] by blast
  with run show "scrape_search site2 completion2 join2 url2 limit2 =
        (map ListingPage (url2 # us) @ map (DetailPage \<circ> url) (before @ [failing]),
         Inl (AssertionError ''Failed to retrieve restaurant page''))"
    by simp
next
  assume b: "scrape_search site3 completion3 join3 url3 limit3 = (lg3, res3) \<and>
    DetailPage u \<in> set lg3 \<and> site3 u = Some uresp \<and> status_code uresp \<noteq> 200"
  then have "scrape_search site3 completion3 join3 url3 limit3 = (lg3, res3)" by simp
  then show "res3 = Inl (AssertionError ''Failed to retrieve restaurant page'')"
  proof (cases rule: scrape_search_cases)
    case early
    with b show ?thesis by auto
  next
    case (crawl fp us)
    with b show ?thesis by auto
  next
    case (enrich fp us lg')
    with b have "DetailPage u \<in> set lg'" by auto
    from enrich_failed_logged [OF enrich(5) this] b show ?thesis by blast
  qed
qed

lemma failed_detail_fetch_runs:
  "failing_detail_site (url (preview_of ''http://t/r2'')) = Some detail_page \<and>
   status_code detail_page = 200 \<and>
   failing_detail_site (url (preview_of ''http://t/r1'')) = Some (detail_page\<lparr> status_code := 503 \<rparr>) \<and>
   status_code (detail_page\<lparr> status_code := 503 \<rparr>) \<noteq> 200 \<and>
   enrich failing_detail_site
       ([preview_of ''http://t/r2''] @ preview_of ''http://t/r1'' # [preview_of ''http://t/r3'']) =
     (map (DetailPage \<circ> url) ([preview_of ''http://t/r2''] @ [preview_of ''http://t/r1'']),
      Inl (AssertionError ''Failed to retrieve restaurant page'')) \<and>
   scrape_search small_site (\<lambda>u. 0) absolute_join ''http://t/s'' None =
     ([ListingPage ''http://t/s'', DetailPage ''http://t/r1'', DetailPage ''http://t/r2''],
      Inr [enriched ''http://t/r1'', enriched ''http://t/r2'']) \<and>
   small_site (url (enriched ''http://t/r1'')) = Some detail_page \<and>
   small_site (url (enriched ''http://t/r2'')) = Some detail_page \<and>
   failing_detail_site ''http://t/s'' =
     Some (listing_page [''http://t/r2'', ''http://t/r1'', ''http://t/r3'']) \<and>
   status_code (listing_page [''http://t/r2'', ''http://t/r1'', ''http://t/r3'']) = 200 \<and>
   parse_search_page absolute_join (listing_page [''http://t/r2'', ''http://t/r1'', ''http://t/r3''])
     \<noteq> [] \<and>
   total_results_of (listing_page [''http://t/r2'', ''http://t/r1'', ''http://t/r3'']) = Inr 0 \<and>
   total_pages_of 0
     (length (parse_search_page absolute_join
        (listing_page [''http://t/r2'', ''http://t/r1'', ''http://t/r3'']))) = Inr 1 \<and>
   [] = other_page_urls_of
          (next_page_url_of absolute_join ''http://t/s''
             (listing_page [''http://t/r2'', ''http://t/r1'', ''http://t/r3'']))
          (length (parse_search_page absolute_join
             (listing_page [''http://t/r2'', ''http://t/r1'', ''http://t/r3''])))
          (limit_pages None 1) \<and>
   extend_results failing_detail_site absolute_join
       (parse_search_page absolute_join
          (listing_page [''http://t/r2'', ''http://t/r1'', ''http://t/r3'']))
       (as_completed (\<lambda>u. 0) []) =
     Inr ([preview_of ''http://t/r2''] @ preview_of ''http://t/r1'' # [preview_of ''http://t/r3'']) \<and>
   scrape_search failing_detail_site (\<lambda>u. 0) absolute_join ''http://t/s'' None =
     (map ListingPage (''http://t/s'' # []) @
      map (DetailPage \<circ> url) ([preview_of ''http://t/r2''] @ [preview_of ''http://t/r1'']),
      Inl (AssertionError ''Failed to retrieve restaurant page'')) \<and>
   scrape_search failing_detail_site (\<lambda>u. 0) absolute_join ''http://t/s'' None =
     ([ListingPage ''http://t/s'', DetailPage ''http://t/r2'', DetailPage ''http://t/r1''],
      Inl (AssertionError ''Failed to retrieve restaurant page'')) \<and>
   DetailPage ''http://t/r1'' \<in>
     set [ListingPage ''http://t/s'', DetailPage ''http://t/r2'', DetailPage ''http://t/r1''] \<and>
   failing_detail_site ''http://t/r1'' = Some (detail_page\<lparr> status_code := 503 \<rparr>)"
  by code_simp

theorem failed_detail_fetch_aborts_witness:
  "failing_detail_site (url (preview_of ''http://t/r2'')) = Some detail_page \<and>
   status_code detail_page = 200 \<and>
   failing_detail_site (url (preview_of ''http://t/r1'')) = Some (detail_page\<lparr> status_code := 503 \<rparr>) \<and>
   status_code (detail_page\<lparr> status_code := 503 \<rparr>) \<noteq> 200 \<and>
   enrich failing_detail_site
       ([preview_of ''http://t/r2''] @ preview_of ''http://t/r1'' # [preview_of ''http://t/r3'']) =
     (map (DetailPage \<circ> url) ([preview_of ''http://t/r2''] @ [preview_of ''http://t/r1'']),
      Inl (AssertionError ''Failed to retrieve restaurant page'')) \<and>
   scrape_search small_site (\<lambda>u. 0) absolute_join ''http://t/s'' None =
     ([ListingPage ''http://t/s'', DetailPage ''http://t/r1'', DetailPage ''http://t/r2''],
      Inr [enriched ''http://t/r1'', enriched ''http://t/r2'']) \<and>
   small_site (url (enriched ''http://t/r1'')) = Some detail_page \<and>
   small_site (url (enriched ''http://t/r2'')) = Some detail_page \<and>
   failing_detail_site ''http://t/s'' =
     Some (listing_page [''http://t/r2'', ''http://t/r1'', ''http://t/r3'']) \<and>
   status_code (listing_page [''http://t/r2'', ''http://t/r1'', ''http://t/r3'']) = 200 \<and>
   parse_search_page absolute_join (listing_page [''http://t/r2'', ''http://t/r1'', ''http://t/r3''])
     \<noteq> [] \<and>
   total_results_of (listing_page [''http://t/r2'', ''http://t/r1'', ''http://t/r3'']) = Inr 0 \<and>
   total_pages_of 0
     (length (parse_search_page absolute_join
        (listing_page [''http://t/r2'', ''http://t/r1'', ''http://t/r3'']))) = Inr 1 \<and>
   [] = other_page_urls_of
          (next_page_url_of absolute_join ''http://t/s''
             (listing_page [''http://t/r2'', ''http://t/r1'', ''http://t/r3'']))
          (length (parse_search_page absolute_join
             (listing_page [''http://t/r2'', ''http://t/r1'', ''http://t/r3''])))
          (limit_pages None 1) \<and>
   extend_results failing_detail_site absolute_join
       (parse_search_page absolute_join
          (listing_page [''http://t/r2'', ''http://t/r1'', ''http://t/r3'']))
       (as_completed (\<lambda>u. 0) []) =
     Inr ([preview_of ''http://t/r2''] @ preview_of ''http://t/r1'' # [preview_of ''http://t/r3'']) \<and>
   scrape_search failing_detail_site (\<lambda>u. 0) absolute_join ''http://t/s'' None =
     (map ListingPage (''http://t/s'' # []) @
      map (DetailPage \<circ> url) ([preview_of ''http://t/r2''] @ [preview_of ''http://t/r1'']),
      Inl (AssertionError ''Failed to retrieve restaurant page'')) \<and>
   scrape_search failing_detail_site (\<lambda>u. 0) absolute_join ''http://t/s'' None =
     ([ListingPage ''http://t/s'', DetailPage ''http://t/r2'', DetailPage ''http://t/r1''],
      Inl (AssertionError ''Failed to retrieve restaurant page'')) \<and>
   DetailPage ''http://t/r1'' \<in>
     set [ListingPage ''http://t/s'', DetailPage ''http://t/r2'', DetailPage ''http://t/r1''] \<and>
   failing_detail_site ''http://t/r1'' = Some (detail_page\<lparr> status_code := 503 \<rparr>)"
  by (insert failed_detail_fetch_aborts
    [where pre = "[preview_of ''http://t/r2'']" and get = failing_detail_site
       and r = "preview_of ''http://t/r1''" and resp = "detail_page\<lparr> status_code := 503 \<rparr>"
       and post = "[preview_of ''http://t/r3'']"
       and site = small_site and completion = "\<lambda>u. 0" and urljoin = absolute_join
       and search_url = "''http://t/s''" and max_pages = None
       and lg = "[ListingPage ''http://t/s'', DetailPage ''http://t/r1'', DetailPage ''http://t/r2'']"
       and out = "[enriched ''http://t/r1'', enriched ''http://t/r2'']"
       and ?site2.0 = failing_detail_site and ?url2.0 = "''http://t/s''"
       and first_page = "listing_page [''http://t/r2'', ''http://t/r1'', ''http://t/r3'']"
       and ?join2.0 = absolute_join and T = 0 and ?N0.0 = 1 and us = "[]" and ?limit2.0 = None
       and ?completion2.0 = "\<lambda>u. 0" and before = "[preview_of ''http://t/r2'']"
       and failing = "preview_of ''http://t/r1''" and rest = "[preview_of ''http://t/r3'']"
       and fresp = "detail_page\<lparr> status_code := 503 \<rparr>"
       and ?site3.0 = failing_detail_site and ?completion3.0 = "\<lambda>u. 0"
       and ?join3.0 = absolute_join and ?url3.0 = "''http://t/s''" and ?limit3.0 = None
       and ?lg3.0 = "[ListingPage ''http://t/s'', DetailPage ''http://t/r2'', DetailPage ''http://t/r1'']"
       and ?res3.0 = "Inl (AssertionError ''Failed to retrieve restaurant page'')"
       and u = "''http://t/r1''" and uresp = "detail_page\<lparr> status_code := 503 \<rparr>"],
      rule failed_detail_fetch_runs)

theorem failed_detail_fetch_counterexample:
  "scrape_search failing_detail_site (\<lambda>u. 0) absolute_join ''http://t/s'' None =
     ([ListingPage ''http://t/s'', DetailPage ''http://t/r2'', DetailPage ''http://t/r1''],
      Inl (AssertionError ''Failed to retrieve restaurant page''))"
  by code_simp

text \<open>
  C2 (as the code has it). The responses of the secondary pages are parsed whatever their
  status code (lines 96-98 check none): when the call returns a list, its length is the
  number of listings found on all the listing pages requested, the first one and every
  planned one, also those answered with a non-success status. A transport error on any
  listing page is not caught: the call ends with that exception.
\<close>

theorem secondary_pages_parsed_whatever_status:
  assumes "scrape_search get completion urljoin search_url max_pages = (lg, res)"
  shows
  "(\<forall>out. res = Inr out \<longrightarrow>
      length out =
        sum_list (map (\<lambda>u. case get u of None \<Rightarrow> 0
                            | Some resp \<Rightarrow> length (parse_search_page urljoin resp))
                      (listing_urls lg))) \<and>
   ((\<exists>u \<in> set (listing_urls lg). get u = None) \<longrightarrow> res = Inl TransportError)"
  using assms
proof (cases rule: scrape_search_cases)
  case early
  then show ?thesis by auto
next
  case (crawl fp us)
  then show ?thesis by simp
next
  case (enrich fp us lg')
  let ?n = "\<lambda>u. case get u of None \<Rightarrow> 0 | Some resp \<Rightarrow> length (parse_search_page urljoin resp)"
  let ?rs = "parse_search_page urljoin fp @
    concat (map (\<lambda>u. parse_search_page urljoin (the (get u))) (as_completed completion us))"
  have urls: "listing_urls lg = search_url # us"
    using enrich(4,5) enrich_log [of get ?rs]
    by (simp add: listing_urls_append listing_urls_map)
  have same: "length (parse_search_page urljoin (the (get u))) = ?n u" if "u \<in> set us" for u
    using that enrich(3) by (auto split: option.splits)
  have "length ?rs = length (parse_search_page urljoin fp) +
      sum_list (map (\<lambda>u. length (parse_search_page urljoin (the (get u))))
        (as_completed completion us))"
    by (simp add: length_concat comp_def)
  also have "\<dots> = length (parse_search_page urljoin fp) +
      sum_list (map (\<lambda>u. length (parse_search_page urljoin (the (get u)))) us)"
    by (simp only: sum_list_as_completed)
  also have "\<dots> = ?n search_url + sum_list (map ?n us)"
    using enrich(1) same by (simp cong: map_cong)
  finally have len: "length ?rs = sum_list (map ?n (listing_urls lg))"
    by (simp add: urls)
  have "length out = sum_list (map ?n (listing_urls lg))" if "res = Inr out" for out
    using enrich_frame [of get ?rs lg' out] enrich(5) that len by simp
  moreover have "\<not> (\<exists>u \<in> set (listing_urls lg). get u = None)"
    using enrich(1,3) by (simp add: urls)
  ultimately show ?thesis by blast
qed

lemma paged_site_two_pages:
  "scrape_search paged_site (\<lambda>u. 0) absolute_join ''http://t/s'' (Some 2) =
     ([ListingPage ''http://t/s'', ListingPage ''http://t/s-oa1'', DetailPage ''http://t/r1'',
       DetailPage ''http://t/r2''],
      Inr [enriched ''http://t/r1'', enriched ''http://t/r2''])"
  by code_simp

lemma paged_site_all_pages:
  "scrape_search paged_site (\<lambda>u. 0) absolute_join ''http://t/s'' None =
     ([ListingPage ''http://t/s'', ListingPage ''http://t/s-oa1'', ListingPage ''http://t/s-oa2''],
      Inl TransportError)"
  by code_simp

theorem secondary_pages_parsed_whatever_status_witness:
  "scrape_search paged_site (\<lambda>u. 0) absolute_join ''http://t/s'' (Some 2) =
     ([ListingPage ''http://t/s'', ListingPage ''http://t/s-oa1'', DetailPage ''http://t/r1'',
       DetailPage ''http://t/r2''],
      Inr [enriched ''http://t/r1'', enriched ''http://t/r2'']) \<and>
   length [enriched ''http://t/r1'', enriched ''http://t/r2''] =
     length (parse_search_page absolute_join (first_page_of ''3 results'')) +
     length (parse_search_page absolute_join ((listing_page [''http://t/r2''])\<lparr> status_code := 503 \<rparr>)) \<and>
   scrape_search paged_site (\<lambda>u. 0) absolute_join ''http://t/s'' None =
     ([ListingPage ''http://t/s'', ListingPage ''http://t/s-oa1'', ListingPage ''http://t/s-oa2''],
      Inl TransportError) \<and>
   paged_site ''http://t/s-oa2'' = None"
  using secondary_pages_parsed_whatever_status [OF paged_site_two_pages]
        secondary_pages_parsed_whatever_status [OF paged_site_all_pages]
        paged_site_two_pages paged_site_all_pages
  by (simp add: paged_site_def first_page_of_def listing_page_def blank_page_def
        parse_search_page_def)

theorem secondary_page_failure_counterexample:
  "scrape_search paged_site (\<lambda>u. 0) absolute_join ''http://t/s'' None =
     ([ListingPage ''http://t/s'', ListingPage ''http://t/s-oa1'', ListingPage ''http://t/s-oa2''],
      Inl TransportError) \<and>
   paged_site ''http://t/s-oa1'' = Some ((listing_page [''http://t/r2''])\<lparr> status_code := 503 \<rparr>) \<and>
   scrape_search paged_site (\<lambda>u. 0) absolute_join ''http://t/s'' (Some 2) =
     ([ListingPage ''http://t/s'', ListingPage ''http://t/s-oa1'', DetailPage ''http://t/r1'',
       DetailPage ''http://t/r2''],
      Inr [enriched ''http://t/r1'', enriched ''http://t/r2''])"
  using paged_site_two_pages paged_site_all_pages
  by (simp add: paged_site_def)

text \<open>
  C3 (as the code has it). Line 80 divides in floating point: for a page size and a total
  both positive and below \<open>2^53\<close> the number of pages is the exact ceiling of their
  quotient (30 per page and 95 results give 4 pages). A total of 0, which a missing or empty
  results-count text gives, makes it 1, and then only the first page is requested.
\<close>

theorem total_pages_is_ceiling:
  "(0 < P \<and> P < 2 ^ 53 \<and> 0 < T \<and> T < 2 ^ 53 \<longrightarrow>
      total_pages_of T P = Inr \<lceil>of_int T / of_nat P :: rat\<rceil>) \<and>
   total_pages_of 0 P = Inr 1 \<and>
   (results_count_text page = None \<or> results_count_text page = Some '''' \<longrightarrow>
      total_results_of page = Inr 0) \<and>
   (get search_url = Some first_page \<and> status_code first_page = 200 \<and>
    total_results_of first_page = Inr 0 \<longrightarrow>
      listing_urls (fst (scrape_search get completion urljoin search_url max_pages)) =
        [search_url])"
proof (intro conjI impI)
  assume "0 < P \<and> P < 2 ^ 53 \<and> 0 < T \<and> T < 2 ^ 53"
  then have "0 < T" "T < 2 ^ 53" "0 < int P" "int P < 2 ^ 53"
    by (simp_all add: of_nat_less_numeral_power_cancel_iff)
  from py_truediv_ceiling [OF this] obtain x where
    "py_truediv T (int P) = Inr x" "\<lceil>x\<rceil> = \<lceil>of_int T / of_int (int P) :: rat\<rceil>"
    by blast
  moreover from \<open>0 < T\<close> have "T \<noteq> 0" by simp
  ultimately show "total_pages_of T P = Inr \<lceil>of_int T / of_nat P :: rat\<rceil>"
    by (simp add: total_pages_of_def py_ceil_def)
next
  show "total_pages_of 0 P = Inr 1" by (simp add: total_pages_of_def)
next
  assume "results_count_text page = None \<or> results_count_text page = Some ''''"
  then show "total_results_of page = Inr 0"
    by (auto simp: total_results_of_def get_default_def)
next
  assume a: "get search_url = Some first_page \<and> status_code first_page = 200 \<and>
    total_results_of first_page = Inr 0"
  show "listing_urls (fst (scrape_search get completion urljoin search_url max_pages)) =
        [search_url]"
  proof (cases "parse_search_page urljoin first_page = []")
    case True
    with a show ?thesis by (simp add: scrape_search_def)
  next
    case False
    have "total_pages_of 0 (length (parse_search_page urljoin first_page)) = Inr 1"
      by (simp add: total_pages_of_def)
    with a False
    have "listing_urls (fst (scrape_search get completion urljoin search_url max_pages)) =
      search_url #
      other_page_urls_of (next_page_url_of urljoin search_url first_page)
        (length (parse_search_page urljoin first_page)) (limit_pages max_pages 1)"
      using scrape_search_listing_urls [where get = get and search_url = search_url] by blast
    moreover have "nat (limit_pages max_pages 1) \<le> 1"
      by (simp add: limit_pages_def split: option.splits)
    ultimately show ?thesis
      by (simp add: other_page_urls_of_def split: option.splits)
  qed
qed

lemma ninety_five_by_thirty:
  "total_pages_of 95 30 = Inr 4 \<and> \<lceil>of_int 95 / of_nat 30 :: rat\<rceil> = 4"
  by code_simp

lemma small_site_single_page:
  "small_site ''http://t/s'' = Some (listing_page [''http://t/r1'', ''http://t/r2'']) \<and>
   status_code (listing_page [''http://t/r1'', ''http://t/r2'']) = 200 \<and>
   total_results_of (listing_page [''http://t/r1'', ''http://t/r2'']) = Inr 0 \<and>
   results_count_text (listing_page [''http://t/r1'', ''http://t/r2'']) = None \<and>
   listing_urls (fst (scrape_search small_site (\<lambda>u. 0) absolute_join ''http://t/s'' (Some 3))) =
     [''http://t/s'']"
  by code_simp

theorem total_pages_is_ceiling_witness:
  "(0 :: nat) < 30 \<and> (30 :: nat) < 2 ^ 53 \<and> (0 :: int) < 95 \<and> (95 :: int) < 2 ^ 53 \<and>
   total_pages_of 95 30 = Inr \<lceil>of_int 95 / of_nat 30 :: rat\<rceil> \<and>
   total_pages_of 95 30 = Inr 4 \<and>
   results_count_text (listing_page [''http://t/r1'', ''http://t/r2'']) = None \<and>
   total_results_of (listing_page [''http://t/r1'', ''http://t/r2'']) = Inr 0 \<and>
   small_site ''http://t/s'' = Some (listing_page [''http://t/r1'', ''http://t/r2'']) \<and>
   status_code (listing_page [''http://t/r1'', ''http://t/r2'']) = 200 \<and>
   listing_urls (fst (scrape_search small_site (\<lambda>u. 0) absolute_join ''http://t/s'' (Some 3))) =
     [''http://t/s'']"
  using total_pages_is_ceiling
          [of 30 95 "listing_page [''http://t/r1'', ''http://t/r2'']" small_site "''http://t/s''"
              "listing_page [''http://t/r1'', ''http://t/r2'']" "\<lambda>u. 0" absolute_join "Some 3"]
        ninety_five_by_thirty small_site_single_page
  by simp

theorem total_pages_float_counterexample:
  "total_pages_of 9007199254740993 1 = Inr 9007199254740992 \<and>
   \<lceil>of_int 9007199254740993 / of_nat 1 :: rat\<rceil> = 9007199254740993"
  by code_simp

text \<open>
  C4. After a first page that is parsed and planned, the listing pages requested are the
  first page and, when the first page has a (non-empty) next-page URL, one URL for every
  page \<open>i\<close> from 2 to \<open>totalPages\<close>: the next-page URL with the offset token
  \<^verbatim>\<open>oa<pageSize>\<close> replaced by \<^verbatim>\<open>oa<pageSize * (i - 1)>\<close>. Without a next-page URL only the
  first page is requested, whatever \<open>totalPages\<close> is. The replacement puts the new token
  where the old one first stands, and goes on behind it.
\<close>

theorem page_urls_by_offset_substitution:
  "(get search_url = Some first_page \<and> status_code first_page = 200 \<and>
    parse_search_page urljoin first_page \<noteq> [] \<and>
    total_results_of first_page = Inr T \<and>
    total_pages_of T (length (parse_search_page urljoin first_page)) = Inr N0 \<longrightarrow>
      (next_page_url_of urljoin search_url first_page = Some n \<and> n \<noteq> '''' \<longrightarrow>
         listing_urls (fst (scrape_search get completion urljoin search_url max_pages)) =
           search_url #
           map (\<lambda>i. replace n
                      (''oa'' @ str_nat (length (parse_search_page urljoin first_page)))
                      (''oa'' @ str_nat (length (parse_search_page urljoin first_page) * (i - 1))))
               [2 ..< Suc (nat (limit_pages max_pages N0))]) \<and>
      (next_page_url_of urljoin search_url first_page = None \<longrightarrow>
         listing_urls (fst (scrape_search get completion urljoin search_url max_pages)) =
           [search_url])) \<and>
   (next_page_href first_page = None \<longrightarrow>
      next_page_url_of urljoin search_url first_page = None) \<and>
   ((\<forall>k < length pre. \<not> startswith (drop k (pre @ (''oa'' @ str_nat P) @ post)) (''oa'' @ str_nat P)) \<longrightarrow>
      replace (pre @ (''oa'' @ str_nat P) @ post) (''oa'' @ str_nat P) new =
        pre @ new @ replace post (''oa'' @ str_nat P) new)"
proof (intro conjI impI)
  assume a: "get search_url = Some first_page \<and> status_code first_page = 200 \<and>
    parse_search_page urljoin first_page \<noteq> [] \<and>
    total_results_of first_page = Inr T \<and>
    total_pages_of T (length (parse_search_page urljoin first_page)) = Inr N0"
  then have log: "listing_urls (fst (scrape_search get completion urljoin search_url max_pages)) =
     search_url #
     other_page_urls_of (next_page_url_of urljoin search_url first_page)
       (length (parse_search_page urljoin first_page)) (limit_pages max_pages N0)"
    using scrape_search_listing_urls [where get = get and search_url = search_url] by blast
  {
    assume "next_page_url_of urljoin search_url first_page = Some n \<and> n \<noteq> ''''"
    then show "listing_urls (fst (scrape_search get completion urljoin search_url max_pages)) =
           search_url #
           map (\<lambda>i. replace n
                      (''oa'' @ str_nat (length (parse_search_page urljoin first_page)))
                      (''oa'' @ str_nat (length (parse_search_page urljoin first_page) * (i - 1))))
               [2 ..< Suc (nat (limit_pages max_pages N0))]"
      using map_pages [of "\<lambda>i. replace n
                      (''oa'' @ str_nat (length (parse_search_page urljoin first_page)))
                      (''oa'' @ str_nat (length (parse_search_page urljoin first_page) * i))"
              1 "nat (limit_pages max_pages N0)"]
      by (simp add: log other_page_urls_of_def numeral_2_eq_2)
  }
  {
    assume "next_page_url_of urljoin search_url first_page = None"
    then show "listing_urls (fst (scrape_search get completion urljoin search_url max_pages)) =
           [search_url]"
      by (simp add: log other_page_urls_of_def)
  }
next
  assume "next_page_href first_page = None"
  then show "next_page_url_of urljoin search_url first_page = None"
    by (simp add: next_page_url_of_def)
next
  assume "\<forall>k < length pre. \<not> startswith (drop k (pre @ (''oa'' @ str_nat P) @ post)) (''oa'' @ str_nat P)"
  then show "replace (pre @ (''oa'' @ str_nat P) @ post) (''oa'' @ str_nat P) new =
        pre @ new @ replace post (''oa'' @ str_nat P) new"
    using replace_from_first [of "''oa'' @ str_nat P" pre post new]
    by (simp add: replace_def)
qed

lemma pairs_site_run:
  "listing_urls (fst (scrape_search pairs_site (\<lambda>u. 0) absolute_join ''http://t/s'' None)) =
     [''http://t/s'', ''http://t/s-oa2'', ''http://t/s-oa4'']"
  by code_simp

lemma pairs_site_plan:
  "total_results_of pairs_first_page = Inr 5 \<and>
   total_pages_of 5 (length (parse_search_page absolute_join pairs_first_page)) = Inr 3 \<and>
   next_page_url_of absolute_join ''http://t/s'' pairs_first_page = Some ''http://t/s-oa2'' \<and>
   pairs_site ''http://t/s'' = Some pairs_first_page \<and> status_code pairs_first_page = 200 \<and>
   parse_search_page absolute_join pairs_first_page \<noteq> []"
  by code_simp

lemma pairs_site_token:
  "\<forall>k < length ''http://t/s-''.
     \<not> startswith (drop k (''http://t/s-'' @ (''oa'' @ str_nat 2) @ '''')) (''oa'' @ str_nat 2)"
  by code_simp

theorem page_urls_by_offset_substitution_witness:
  "pairs_site ''http://t/s'' = Some pairs_first_page \<and> status_code pairs_first_page = 200 \<and>
   parse_search_page absolute_join pairs_first_page \<noteq> [] \<and>
   total_results_of pairs_first_page = Inr 5 \<and>
   total_pages_of 5 (length (parse_search_page absolute_join pairs_first_page)) = Inr 3 \<and>
   next_page_url_of absolute_join ''http://t/s'' pairs_first_page = Some ''http://t/s-oa2'' \<and>
   listing_urls (fst (scrape_search pairs_site (\<lambda>u. 0) absolute_join ''http://t/s'' None)) =
     ''http://t/s'' #
     map (\<lambda>i. replace ''http://t/s-oa2''
                (''oa'' @ str_nat (length (parse_search_page absolute_join pairs_first_page)))
                (''oa'' @ str_nat (length (parse_search_page absolute_join pairs_first_page) * (i - 1))))
         [2 ..< Suc (nat (limit_pages None 3))] \<and>
   listing_urls (fst (scrape_search pairs_site (\<lambda>u. 0) absolute_join ''http://t/s'' None)) =
     [''http://t/s'', ''http://t/s-oa2'', ''http://t/s-oa4''] \<and>
   replace (''http://t/s-'' @ (''oa'' @ str_nat 2) @ '''') (''oa'' @ str_nat 2) ''oa4'' =
     ''http://t/s-'' @ ''oa4'' @ replace '''' (''oa'' @ str_nat 2) ''oa4''"
  using page_urls_by_offset_substitution
          [of pairs_site "''http://t/s''" pairs_first_page absolute_join 5 3 "''http://t/s-oa2''"
              "\<lambda>u. 0" None "''http://t/s-''" 2 "''''" "''oa4''"]
        pairs_site_plan pairs_site_run pairs_site_token
  by simp





text \<open>
  C6 (as the code has it). A page limit other than 0 that the computed number of pages
  exceeds replaces it; a limit of 0 is falsy on line 83 and limits nothing, like no limit.
  With a limit of 2 and 5 computed pages, a first page that has a next-page URL is followed
  by one more listing request, for the next-page URL itself (offset \<open>pageSize * 1\<close>): two
  listing pages are requested in all.
\<close>

theorem page_limit_clamps:
  "(m \<noteq> 0 \<and> m < N \<longrightarrow> limit_pages (Some m) N = m) \<and>
   limit_pages (Some 0) N = N \<and>
   limit_pages None N = N \<and>
   (get search_url = Some first_page \<and> status_code first_page = 200 \<and>
    parse_search_page urljoin first_page \<noteq> [] \<and>
    total_results_of first_page = Inr T \<and>
    total_pages_of T (length (parse_search_page urljoin first_page)) = Inr 5 \<and>
    next_page_url_of urljoin search_url first_page = Some n \<and> n \<noteq> '''' \<longrightarrow>
      listing_urls (fst (scrape_search get completion urljoin search_url (Some 2))) =
        [search_url, n])"
proof (intro conjI impI)
  assume "m \<noteq> 0 \<and> m < N"
  then show "limit_pages (Some m) N = m" by (simp add: limit_pages_def)
next
  show "limit_pages (Some 0) N = N" by (simp add: limit_pages_def)
next
  show "limit_pages None N = N" by (simp add: limit_pages_def)
next
  assume a: "get search_url = Some first_page \<and> status_code first_page = 200 \<and>
    parse_search_page urljoin first_page \<noteq> [] \<and>
    total_results_of first_page = Inr T \<and>
    total_pages_of T (length (parse_search_page urljoin first_page)) = Inr 5 \<and>
    next_page_url_of urljoin search_url first_page = Some n \<and> n \<noteq> ''''"
  then have "listing_urls (fst (scrape_search get completion urljoin search_url (Some 2))) =
     search_url #
     other_page_urls_of (next_page_url_of urljoin search_url first_page)
       (length (parse_search_page urljoin first_page)) (limit_pages (Some 2) 5)"
    using scrape_search_listing_urls [where get = get and search_url = search_url] by blast
  moreover have "[1 ..< nat (limit_pages (Some 2) 5)] = [1]"
    by (simp add: limit_pages_def upt_rec)
  ultimately show "listing_urls (fst (scrape_search get completion urljoin search_url (Some 2))) =
        [search_url, n]"
    using a by (simp add: other_page_urls_of_def replace_same)
qed

lemma five_page_site_plan:
  "five_page_site ''http://t/s'' = Some (first_page_of ''5 results'') \<and>
   status_code (first_page_of ''5 results'') = 200 \<and>
   parse_search_page absolute_join (first_page_of ''5 results'') \<noteq> [] \<and>
   total_results_of (first_page_of ''5 results'') = Inr 5 \<and>
   total_pages_of 5 (length (parse_search_page absolute_join (first_page_of ''5 results''))) = Inr 5 \<and>
   next_page_url_of absolute_join ''http://t/s'' (first_page_of ''5 results'') = Some ''http://t/s-oa1''"
  by code_simp

theorem page_limit_clamps_witness:
  "(2 :: int) \<noteq> 0 \<and> (2 :: int) < 5 \<and> limit_pages (Some 2) 5 = 2 \<and>
   five_page_site ''http://t/s'' = Some (first_page_of ''5 results'') \<and>
   status_code (first_page_of ''5 results'') = 200 \<and>
   parse_search_page absolute_join (first_page_of ''5 results'') \<noteq> [] \<and>
   total_results_of (first_page_of ''5 results'') = Inr 5 \<and>
   total_pages_of 5 (length (parse_search_page absolute_join (first_page_of ''5 results''))) = Inr 5 \<and>
   next_page_url_of absolute_join ''http://t/s'' (first_page_of ''5 results'') = Some ''http://t/s-oa1'' \<and>
   listing_urls (fst (scrape_search five_page_site (\<lambda>u. 0) absolute_join ''http://t/s'' (Some 2))) =
     [''http://t/s'', ''http://t/s-oa1'']"
  using page_limit_clamps
          [of 2 5 five_page_site "''http://t/s''" "first_page_of ''5 results''" absolute_join 5
              "''http://t/s-oa1''" "\<lambda>u. 0"]
        five_page_site_plan
  by simp

theorem page_limit_zero_counterexample:
  "limit_pages (Some 0) 5 = 5 \<and>
   listing_urls (fst (scrape_search five_page_site (\<lambda>u. 0) absolute_join ''http://t/s'' (Some 0))) =
     [''http://t/s'', ''http://t/s-oa1'', ''http://t/s-oa2'', ''http://t/s-oa3'', ''http://t/s-oa4'']"
  by code_simp

text \<open>
  C7. When the fetch of the first page returns a status other than 200 (every non-success
  status is one), the call fails with the assertion's error, no list is returned, and the
  first page is the only request made.
\<close>

theorem first_page_failure_is_fatal:
  "get search_url = Some first_page \<Longrightarrow> status_code first_page \<noteq> 200 \<Longrightarrow>
   scrape_search get completion urljoin search_url max_pages =
     ([ListingPage search_url], Inl (AssertionError ''Scraper is being blocked''))"
  by (simp add: scrape_search_def)

theorem first_page_failure_is_fatal_witness:
  "blocked_site ''http://t/s'' = Some (blank_page\<lparr> status_code := 503 \<rparr>) \<and>
   status_code (blank_page\<lparr> status_code := 503 \<rparr>) \<noteq> 200 \<and>
   scrape_search blocked_site (\<lambda>u. 0) absolute_join ''http://t/s'' (Some 3) =
     ([ListingPage ''http://t/s''], Inl (AssertionError ''Scraper is being blocked''))"
  using first_page_failure_is_fatal
          [of blocked_site "''http://t/s''" "blank_page\<lparr> status_code := 503 \<rparr>"
              "\<lambda>u. 0" absolute_join "Some 3"]
  by (simp add: blocked_site_def blank_page_def)

text \<open>
  C8 (the defect). On a detail page whose rating element has no \<^verbatim>\<open>bubble_NN\<close> class,
  \<^verbatim>\<open>re_first\<close> finds no match and returns its default \<^verbatim>\<open>None\<close>; line 104 stores it, so
  the record of the final output has \<^verbatim>\<open>None\<close> for its rating, not the empty string.
\<close>

theorem missing_rating_is_none:
  "scrape_search unrated_site (\<lambda>u. 0) absolute_join ''http://t/s'' None =
     ([ListingPage ''http://t/s'', DetailPage ''http://t/r1''],
      Inr [\<lparr> url = ''http://t/r1'', name = ''R'', numberOfReviews = ''12 reviews'',
             rating = None, address = ''1 rue A'' \<rparr>])"
  by code_simp

text \<open>
  C9. The division of line 80 never divides by zero: no call ends with
  \<^verbatim>\<open>ZeroDivisionError\<close>, although the division itself raises it for a zero divisor. A
  first page without listings ends the call at line 72 with the empty list, before the
  division, with the first page as the only request.
\<close>

theorem page_size_positive_at_division:
  "snd (scrape_search get completion urljoin search_url max_pages) \<noteq> Inl ZeroDivisionError \<and>
   (T \<noteq> 0 \<longrightarrow> total_pages_of T 0 = Inl ZeroDivisionError) \<and>
   (get search_url = Some first_page \<and> status_code first_page = 200 \<and>
    listing_boxes first_page = [] \<longrightarrow>
      scrape_search get completion urljoin search_url max_pages =
        ([ListingPage search_url], Inr []))"
proof (intro conjI impI)
  show "snd (scrape_search get completion urljoin search_url max_pages) \<noteq> Inl ZeroDivisionError"
  proof
    assume "snd (scrape_search get completion urljoin search_url max_pages) = Inl ZeroDivisionError"
    then obtain lg where
      run: "scrape_search get completion urljoin search_url max_pages = (lg, Inl ZeroDivisionError)"
      by (metis prod.collapse)
    from run show False
    proof (cases rule: scrape_search_cases)
      case early
      then show ?thesis by auto
    next
      case (crawl fp us)
      then show ?thesis by simp
    next
      case (enrich fp us lg')
      from enrich_error [OF enrich(5)] show ?thesis by simp
    qed
  qed
next
  assume "T \<noteq> 0"
  then show "total_pages_of T 0 = Inl ZeroDivisionError"
    by (simp add: total_pages_of_def py_truediv_def)
next
  assume "get search_url = Some first_page \<and> status_code first_page = 200 \<and>
    listing_boxes first_page = []"
  then show "scrape_search get completion urljoin search_url max_pages =
        ([ListingPage search_url], Inr [])"
    by (simp add: scrape_search_def parse_search_page_def)
qed

theorem page_size_positive_at_division_witness:
  "(95 :: int) \<noteq> 0 \<and> total_pages_of 95 0 = Inl ZeroDivisionError \<and>
   empty_site ''http://t/s'' = Some blank_page \<and> status_code blank_page = 200 \<and>
   listing_boxes blank_page = [] \<and>
   scrape_search empty_site (\<lambda>u. 0) absolute_join ''http://t/s'' None =
     ([ListingPage ''http://t/s''], Inr [])"
  using page_size_positive_at_division
          [of empty_site "\<lambda>u. 0" absolute_join "''http://t/s''" None 95 blank_page]
  by (simp add: empty_site_def blank_page_def)

text \<open>
  C10. Enrichment, when it returns a list, returns one of the same length whose records
  carry, position by position, the URL and the name of the records it was given:
  only \<open>numberOfReviews\<close>, \<open>rating\<close> and \<open>address\<close> can differ. It returns a list
  whenever every detail request is answered with status 200.
\<close>

theorem enrichment_keeps_url_and_name:
  "(enrich get rs = (lg, Inr rs') \<longrightarrow>
      length rs' = length rs \<and> map url rs' = map url rs \<and> map name rs' = map name rs) \<and>
   ((\<forall>r \<in> set rs. \<exists>resp. get (url r) = Some resp \<and> status_code resp = 200) \<longrightarrow>
      (\<exists>lg' rs''. enrich get rs = (lg', Inr rs'')))"
  using enrich_frame [of get rs lg rs'] enrich_returns [of rs get] by blast

theorem enrichment_keeps_url_and_name_witness:
  "enrich small_site [preview_of ''http://t/r1'', preview_of ''http://t/r2''] =
     ([DetailPage ''http://t/r1'', DetailPage ''http://t/r2''],
      Inr [enriched ''http://t/r1'', enriched ''http://t/r2'']) \<and>
   small_site (url (preview_of ''http://t/r1'')) = Some detail_page \<and>
   small_site (url (preview_of ''http://t/r2'')) = Some detail_page \<and>
   status_code detail_page = 200 \<and>
   length [enriched ''http://t/r1'', enriched ''http://t/r2''] =
     length [preview_of ''http://t/r1'', preview_of ''http://t/r2''] \<and>
   map url [enriched ''http://t/r1'', enriched ''http://t/r2''] =
     map url [preview_of ''http://t/r1'', preview_of ''http://t/r2''] \<and>
   map name [enriched ''http://t/r1'', enriched ''http://t/r2''] =
     map name [preview_of ''http://t/r1'', preview_of ''http://t/r2'']"
  using enrichment_keeps_url_and_name
          [of small_site "[preview_of ''http://t/r1'', preview_of ''http://t/r2'']"
              "[DetailPage ''http://t/r1'', DetailPage ''http://t/r2'']"
              "[enriched ''http://t/r1'', enriched ''http://t/r2'']"]
  by (simp add: small_site_def preview_of_def enriched_def detail_page_def blank_page_def
        scrape_restaurant_details_def get_default_def strip_def is_space_def
        startswith_def is_digit_def)

end
